theory Spec2Isabelle
  imports Main "HOL-Library.Sublist"
begin

section \<open>C strings and the library calls of format\_string.cpp\<close>

text \<open>
  A char array is a list of bytes. A C string is the part of an array before its first
  NUL byte; the end of the list is read as a terminator as well, so that a string literal
  is written without its closing NUL.
\<close>

definition NUL :: char where
  "NUL = CHR 0x00"

definition newline :: char where
  "newline = CHR 0x0A"

definition cstr :: "string \<Rightarrow> string" where
  "cstr s = takeWhile (\<lambda>c. c \<noteq> NUL) s"

definition strlen :: "string \<Rightarrow> nat" where
  "strlen s = length (cstr s)"

text \<open>\<open>strcspn(s, reject)\<close>: the length of the initial part of \<open>s\<close> free of bytes of \<open>reject\<close>.\<close>

definition strcspn :: "string \<Rightarrow> string \<Rightarrow> nat" where
  "strcspn s reject = length (takeWhile (\<lambda>c. c \<notin> set (cstr reject)) (cstr s))"

definition first_byte :: "string \<Rightarrow> char" where
  "first_byte s = (case s of [] \<Rightarrow> NUL | c # _ \<Rightarrow> c)"

text \<open>
  \<open>strncmp(s1, s2, n)\<close> compares at most \<open>n\<close> bytes as unsigned chars and stops behind a
  common NUL.
\<close>

fun strncmp :: "string \<Rightarrow> string \<Rightarrow> nat \<Rightarrow> int" where
  "strncmp s1 s2 0 = 0"
| "strncmp s1 s2 (Suc n) =
     (let c1 = first_byte s1; c2 = first_byte s2
      in if c1 \<noteq> c2 then int (of_char c1) - int (of_char c2)
         else if c1 = NUL then 0
         else strncmp (tl s1) (tl s2) n)"

text \<open>
  What the process can observe and do: the bytes still waiting on standard input, the bytes
  written to standard output and standard error so far, and the commands handed to
  \<open>std::system\<close> so far.
\<close>

record world =
  stdin :: string
  stdout :: string
  stderr :: string
  commands :: "string list"

text \<open>
  \<open>fgets(s, n, stdin)\<close> takes at most \<open>n - 1\<close> bytes, stops behind a newline (which it
  keeps) or at the end of the input, and writes a NUL behind the bytes it took. When the
  input is at its end and nothing was taken the array is left as it was.
\<close>

fun fgets_chars :: "nat \<Rightarrow> string \<Rightarrow> string \<times> string" where
  "fgets_chars 0 inp = ([], inp)"
| "fgets_chars (Suc k) [] = ([], [])"
| "fgets_chars (Suc k) (c # inp) =
     (if c = newline then ([c], inp)
      else (case fgets_chars k inp of (r, rest) \<Rightarrow> (c # r, rest)))"

definition fgets :: "string \<Rightarrow> nat \<Rightarrow> world \<Rightarrow> string \<times> world" where
  "fgets s n w =
     (case fgets_chars (n - 1) (stdin w) of
        (r, rest) \<Rightarrow>
          if r = [] then (s, w)
          else (r @ NUL # drop (Suc (length r)) s, w\<lparr>stdin := rest\<rparr>))"

text \<open>
  Formatted output. The program passes string arguments only, so the conversions are
  \<open>%%\<close> and \<open>%s\<close>; \<open>%s\<close> with no argument left reads an argument that was never passed,
  and every other conversion either does the same with an argument of another type or is no
  conversion at all. Both are undefined behaviour in C and a \<open>fault\<close> here.
\<close>

datatype fault = MissingArgument | BadConversion

fun format_output :: "string \<Rightarrow> string list \<Rightarrow> fault + string" where
  "format_output [] args = Inr []"
| "format_output (c # fmt) args =
     (if c \<noteq> CHR ''%'' then
        (case format_output fmt args of Inl e \<Rightarrow> Inl e | Inr out \<Rightarrow> Inr (c # out))
      else
        (case fmt of
           [] \<Rightarrow> Inl BadConversion
         | d # fmt' \<Rightarrow>
             if d = CHR ''%'' then
               (case format_output fmt' args of
                  Inl e \<Rightarrow> Inl e
                | Inr out \<Rightarrow> Inr (CHR ''%'' # out))
             else if d = CHR ''s'' then
               (case args of
                  [] \<Rightarrow> Inl MissingArgument
                | a # args' \<Rightarrow>
                    (case format_output fmt' args' of
                       Inl e \<Rightarrow> Inl e
                     | Inr out \<Rightarrow> Inr (cstr a @ out)))
             else Inl BadConversion))"

definition printf :: "string \<Rightarrow> string list \<Rightarrow> world \<Rightarrow> fault + world" where
  "printf fmt args w =
     (case format_output (cstr fmt) args of
        Inl e \<Rightarrow> Inl e
      | Inr out \<Rightarrow> Inr (w\<lparr>stdout := stdout w @ out\<rparr>))"

definition fprintf_stderr :: "string \<Rightarrow> string list \<Rightarrow> world \<Rightarrow> fault + world" where
  "fprintf_stderr fmt args w =
     (case format_output (cstr fmt) args of
        Inl e \<Rightarrow> Inl e
      | Inr out \<Rightarrow> Inr (w\<lparr>stderr := stderr w @ out\<rparr>))"

definition system :: "string \<Rightarrow> world \<Rightarrow> world" where
  "system cmd w = w\<lparr>commands := commands w @ [cmd]\<rparr>"

definition and_then :: "fault + 'a \<Rightarrow> ('a \<Rightarrow> fault + 'b) \<Rightarrow> fault + 'b" where
  "and_then m f = (case m of Inl e \<Rightarrow> Inl e | Inr x \<Rightarrow> f x)"

section \<open>The program\<close>

definition MAX_USERNAME_LENGTH :: nat where
  "MAX_USERNAME_LENGTH = 32"

definition MAX_PASSWORD_LENGTH :: nat where
  "MAX_PASSWORD_LENGTH = 32"

definition BCRYPT_HASHSIZE :: nat where
  "BCRYPT_HASHSIZE = 61"

definition bcrypt_checkpw :: "string \<Rightarrow> string \<Rightarrow> int" where
  "bcrypt_checkpw password hash = 0"

record User =
  username :: string
  hashed_password :: string

definition database :: "User list" where
  "database =
     [\<lparr>username = ''admin'', hashed_password = ''aaaaaaaa''\<rparr>,
      \<lparr>username = ''lukas'', hashed_password = ''hashed_lukasPass''\<rparr>,
      \<lparr>username = ''greg'', hashed_password = ''hashed_gregPass''\<rparr>]"

text \<open>
  The \<open>for\<close> loop of \<open>verify_user_password\<close> over the entries not yet visited. The table
  and the password check are arguments here; the program runs it on \<open>database\<close> with
  \<open>bcrypt_checkpw\<close>.
\<close>

fun scan_database ::
  "(string \<Rightarrow> string \<Rightarrow> int) \<Rightarrow> User list \<Rightarrow> string \<Rightarrow> string \<Rightarrow> bool" where
  "scan_database chk [] name pass = False"
| "scan_database chk (e # es) name pass =
     (if strncmp (username e) name (strlen (username e)) = 0 then
        (if chk pass (hashed_password e) = 0 then True else False)
      else scan_database chk es name pass)"

text \<open>A pointer argument is \<open>None\<close> when it is \<open>NULL\<close>.\<close>

definition verify_user_password_with ::
  "(string \<Rightarrow> string \<Rightarrow> int) \<Rightarrow> User list \<Rightarrow> string option \<Rightarrow> string option \<Rightarrow> world
     \<Rightarrow> fault + (bool \<times> world)" where
  "verify_user_password_with chk db name pass w =
     (case (name, pass) of
        (Some u, Some p) \<Rightarrow>
          (let username_length = strlen u; password_length = strlen p
           in if username_length = 0 \<or> username_length \<ge> MAX_USERNAME_LENGTH \<or>
                 password_length = 0 \<or> password_length \<ge> MAX_PASSWORD_LENGTH
              then and_then
                     (fprintf_stderr ''Error: Username or password is invalid length.\<newline>'' [] w)
                     (\<lambda>w'. Inr (False, w'))
              else Inr (scan_database chk db u p, w))
      | _ \<Rightarrow>
          and_then (fprintf_stderr ''Error: Username or password is NULL.\<newline>'' [] w)
            (\<lambda>w'. Inr (False, w')))"

definition verify_user_password ::
  "string option \<Rightarrow> string option \<Rightarrow> world \<Rightarrow> fault + (bool \<times> world)" where
  "verify_user_password = verify_user_password_with bcrypt_checkpw database"

text \<open>\<open>secure_zeroize(ptr, len)\<close>: the \<open>while (len--)\<close> loop, one byte a step.\<close>

fun secure_zeroize :: "string \<Rightarrow> nat \<Rightarrow> string" where
  "secure_zeroize p 0 = p"
| "secure_zeroize [] (Suc len) = []"
| "secure_zeroize (c # p) (Suc len) = NUL # secure_zeroize p len"

definition admin_panel :: "world \<Rightarrow> fault + world" where
  "admin_panel w =
     and_then (printf ''<<< Welcome to admin panel >>>\<newline>'' [] w)
       (\<lambda>w'. Inr (system ''/bin/sh'' w'))"

text \<open>
  The two local arrays of \<open>authenticate_admin\<close>. Their content on entry is whatever the
  stack held, so the frame is an argument; \<open>frame_ok\<close> says that each array has its declared
  size. The function returns its result together with the arrays as it leaves them. The
  write \<open>entered_password[strcspn(...)] = 0\<close> is a list update; its index lies inside the
  array, because the array holds a NUL byte behind what \<open>fgets\<close> stored (lemma
  \<open>strcspn_index_in_bounds\<close>).
\<close>

record auth_frame =
  entered_name :: string
  entered_password :: string

definition frame_ok :: "auth_frame \<Rightarrow> bool" where
  "frame_ok fr \<longleftrightarrow>
     length (entered_name fr) = MAX_USERNAME_LENGTH \<and>
     length (entered_password fr) = MAX_PASSWORD_LENGTH"

definition rule_line :: string where
  "rule_line =
     ''\<newline>------------------------------------------------------------\<newline>''"

definition authenticate_admin_with ::
  "(string \<Rightarrow> string \<Rightarrow> int) \<Rightarrow> User list \<Rightarrow> auth_frame \<Rightarrow> world
     \<Rightarrow> fault + (bool \<times> auth_frame \<times> world)" where
  "authenticate_admin_with chk db fr0 w0 =
     (let fr1 = fr0\<lparr>entered_name := secure_zeroize (entered_name fr0) MAX_USERNAME_LENGTH\<rparr>;
          fr2 = fr1\<lparr>entered_password :=
                      secure_zeroize (entered_password fr1) MAX_PASSWORD_LENGTH\<rparr>
      in and_then (printf ''Enter username:\<newline>'' [] w0) (\<lambda>w1.
         case fgets (entered_name fr2) MAX_USERNAME_LENGTH w1 of (nm, w2) \<Rightarrow>
         let fr3 = fr2\<lparr>entered_name := nm\<rparr>
         in and_then (printf ''Enter password:\<newline>'' [] w2) (\<lambda>w3.
         case fgets (entered_password fr3) MAX_PASSWORD_LENGTH w3 of (pw, w4) \<Rightarrow>
         let fr4 = fr3\<lparr>entered_password := pw[strcspn pw ''\<newline>'' := NUL]\<rparr>
         in and_then
              (verify_user_password_with chk db
                 (Some (entered_name fr4)) (Some (entered_password fr4)) w4)
              (\<lambda>(ok, w5).
                 if ok then
                   and_then (printf rule_line [] w5) (\<lambda>w6.
                   and_then
                     (printf ''Password matched, Authenticated succesfully for the user:'' [] w6)
                     (\<lambda>w7.
                   and_then (printf (entered_name fr4) [] w7) (\<lambda>w8.
                   and_then (printf rule_line [] w8) (\<lambda>w9.
                   Inr (True, fr4, w9)))))
                 else
                   and_then
                     (printf ''Password mismatch for the user: %s\<newline>'' [entered_name fr4] w5)
                     (\<lambda>w6. Inr (False, fr4, w6))))))"

definition authenticate_admin ::
  "auth_frame \<Rightarrow> world \<Rightarrow> fault + (bool \<times> auth_frame \<times> world)" where
  "authenticate_admin = authenticate_admin_with bcrypt_checkpw database"

definition main_with ::
  "(string \<Rightarrow> string \<Rightarrow> int) \<Rightarrow> User list \<Rightarrow> auth_frame \<Rightarrow> world \<Rightarrow> fault + (int \<times> world)" where
  "main_with chk db fr w =
     and_then (authenticate_admin_with chk db fr w) (\<lambda>(ok, fr', w1).
       if ok then and_then (admin_panel w1) (\<lambda>w2. Inr (0, w2))
       else and_then (printf ''Authentication failed!\<newline>'' [] w1) (\<lambda>w2. Inr (0, w2)))"

definition main :: "auth_frame \<Rightarrow> world \<Rightarrow> fault + (int \<times> world)" where
  "main = main_with bcrypt_checkpw database"

section \<open>Derived notions used in the statements\<close>

definition invalid_length_message :: string where
  "invalid_length_message = ''Error: Username or password is invalid length.\<newline>''"

text \<open>
  \<open>authenticate_admin\<close> in two phases: \<open>read_credentials\<close> is the function up to the call
  of \<open>verify_user_password\<close> (both arrays wiped, both prompts written, both lines read, the
  newline of the password cut off), \<open>report\<close> is what follows that call. Lemma
  \<open>authenticate_admin_with_phases\<close> below proves that the function is the two in sequence.
\<close>

definition read_credentials :: "auth_frame \<Rightarrow> world \<Rightarrow> auth_frame \<times> world" where
  "read_credentials fr w =
     (case fgets (secure_zeroize (entered_name fr) MAX_USERNAME_LENGTH) MAX_USERNAME_LENGTH
             (w\<lparr>stdout := stdout w @ ''Enter username:\<newline>''\<rparr>) of
        (nm, w2) \<Rightarrow>
          (case fgets (secure_zeroize (entered_password fr) MAX_PASSWORD_LENGTH)
                  MAX_PASSWORD_LENGTH
                  (w2\<lparr>stdout := stdout w2 @ ''Enter password:\<newline>''\<rparr>) of
             (pw, w4) \<Rightarrow>
               (\<lparr>entered_name = nm, entered_password = pw[strcspn pw ''\<newline>'' := NUL]\<rparr>, w4)))"

definition report :: "bool \<Rightarrow> auth_frame \<Rightarrow> world \<Rightarrow> fault + (bool \<times> auth_frame \<times> world)" where
  "report ok fr w =
     (if ok then
        and_then (printf rule_line [] w) (\<lambda>w6.
        and_then
          (printf ''Password matched, Authenticated succesfully for the user:'' [] w6)
          (\<lambda>w7.
        and_then (printf (entered_name fr) [] w7) (\<lambda>w8.
        and_then (printf rule_line [] w8) (\<lambda>w9.
        Inr (True, fr, w9)))))
      else
        and_then
          (printf ''Password mismatch for the user: %s\<newline>'' [entered_name fr] w)
          (\<lambda>w6. Inr (False, fr, w6)))"

text \<open>
  Concrete inputs for the examples: a frame still holding bytes of earlier calls, a process
  that starts with the given bytes on standard input and has written nothing yet, and a
  password check that compares the password with the stored string.
\<close>

definition stale_frame :: auth_frame where
  "stale_frame =
     \<lparr>entered_name = replicate 32 (CHR ''?''), entered_password = replicate 32 (CHR ''?'')\<rparr>"

definition console :: "string \<Rightarrow> world" where
  "console inp = \<lparr>stdin = inp, stdout = [], stderr = [], commands = []\<rparr>"

definition exact_checkpw :: "string \<Rightarrow> string \<Rightarrow> int" where
  "exact_checkpw password hash = (if cstr password = cstr hash then 0 else 1)"

section \<open>Facts about the library calls\<close>

lemma and_then_simps [simp]:
  "and_then (Inr x) f = f x" "and_then (Inl e) f = Inl e"
  by (simp_all add: and_then_def)

lemma secure_zeroize_length [simp]: "length (secure_zeroize s n) = length s"
  by (induction s n rule: secure_zeroize.induct) simp_all

lemma secure_zeroize_whole: "length s \<le> n \<Longrightarrow> secure_zeroize s n = replicate (length s) NUL"
  by (induction s n rule: secure_zeroize.induct) simp_all

lemma cstr_secure_zeroize [simp]: "cstr (secure_zeroize s (Suc n)) = []"
  by (cases s) (simp_all add: cstr_def)

lemma cstr_prefix: "prefix (cstr s) s"
  unfolding cstr_def by (metis prefixI takeWhile_dropWhile_id)

lemma cstr_Nil [simp]: "cstr [] = []"
  by (simp add: cstr_def)

lemma cstr_Cons: "cstr (c # s) = (if c = NUL then [] else c # cstr s)"
  by (simp add: cstr_def)

lemma cstr_no_NUL: "NUL \<notin> set s \<Longrightarrow> cstr s = s"
  by (induction s) (auto simp: cstr_def)

lemma cstr_append_NUL: "cstr (r @ NUL # s) = cstr r"
  by (induction r) (simp_all add: cstr_Cons)

lemma fgets_chars_append: "fgets_chars k inp = (r, rest) \<Longrightarrow> inp = r @ rest"
  by (induction k inp arbitrary: r rest rule: fgets_chars.induct)
     (auto split: if_splits prod.splits)

lemma fgets_chars_line:
  "newline \<notin> set u \<Longrightarrow> length u < k \<Longrightarrow>
   fgets_chars k (u @ newline # rest) = (u @ [newline], rest)"
proof (induction u arbitrary: k)
  case Nil
  then show ?case by (cases k) simp_all
next
  case (Cons c u)
  then show ?case by (cases k) auto
qed

lemma fgets_chars_long:
  "newline \<notin> set (take k u) \<Longrightarrow> k \<le> length u \<Longrightarrow>
   fgets_chars k (u @ rest) = (take k u, drop k u @ rest)"
proof (induction k arbitrary: u)
  case 0
  then show ?case by simp
next
  case (Suc k)
  then show ?case by (cases u) auto
qed

lemma format_output_plain:
  "CHR ''%'' \<notin> set fmt \<Longrightarrow> format_output fmt args = Inr fmt"
  by (induction fmt) auto

lemma printf_plain:
  "CHR ''%'' \<notin> set fmt \<Longrightarrow> NUL \<notin> set fmt \<Longrightarrow>
   printf fmt args w = Inr (w\<lparr>stdout := stdout w @ fmt\<rparr>)"
  by (simp add: printf_def cstr_no_NUL format_output_plain)

lemma fprintf_stderr_plain:
  "CHR ''%'' \<notin> set fmt \<Longrightarrow> NUL \<notin> set fmt \<Longrightarrow>
   fprintf_stderr fmt args w = Inr (w\<lparr>stderr := stderr w @ fmt\<rparr>)"
  by (simp add: fprintf_stderr_def cstr_no_NUL format_output_plain)

lemma printf_mismatch:
  "printf ''Password mismatch for the user: %s\<newline>'' [a] w =
   Inr (w\<lparr>stdout := stdout w @ ''Password mismatch for the user: '' @ cstr a @ ''\<newline>''\<rparr>)"
  by (simp add: printf_def cstr_def NUL_def)

lemma byte_diff_zero: "int (of_char c1) - int (of_char c2) = 0 \<longleftrightarrow> c1 = c2"
  by simp

lemma strncmp_prefix:
  "strncmp a b (strlen a) = 0 \<longleftrightarrow> prefix (cstr a) (cstr b)"
proof (induction a arbitrary: b)
  case Nil
  then show ?case by (simp add: strlen_def)
next
  case (Cons c a)
  show ?case
  proof (cases "c = NUL")
    case True
    then show ?thesis by (simp add: strlen_def cstr_Cons)
  next
    case False
    show ?thesis
    proof (cases b)
      case Nil
      with False show ?thesis
        by (simp add: strlen_def cstr_Cons first_byte_def byte_diff_zero del: of_nat_of_char)
    next
      case (Cons d b')
      with False Cons.IH [of b'] show ?thesis
        by (auto simp: strlen_def cstr_Cons first_byte_def byte_diff_zero simp del: of_nat_of_char)
    qed
  qed
qed

section \<open>Facts about the program\<close>

lemma scan_database_stub:
  "scan_database bcrypt_checkpw db u p \<longleftrightarrow> (\<exists>e\<in>set db. prefix (cstr (username e)) (cstr u))"
  by (induction db) (simp_all add: strncmp_prefix bcrypt_checkpw_def)

lemma scan_database_hit:
  "scan_database chk db u p \<Longrightarrow> \<exists>e\<in>set db. prefix (cstr (username e)) (cstr u)"
  by (induction db) (auto simp: strncmp_prefix split: if_splits)

lemma scan_database_stub_password:
  "scan_database bcrypt_checkpw db u p1 = scan_database bcrypt_checkpw db u p2"
  by (simp add: scan_database_stub)

lemma verify_user_password_with_Some:
  "verify_user_password_with chk db (Some u) (Some p) w =
     (if strlen u = 0 \<or> MAX_USERNAME_LENGTH \<le> strlen u \<or>
         strlen p = 0 \<or> MAX_PASSWORD_LENGTH \<le> strlen p
      then Inr (False, w\<lparr>stderr := stderr w @ invalid_length_message\<rparr>)
      else Inr (scan_database chk db u p, w))"
  by (simp add: verify_user_password_with_def invalid_length_message_def
      fprintf_stderr_plain NUL_def Let_def)

lemma auth_frame_overwrite:
  "fr\<lparr>entered_name := a, entered_password := b\<rparr> = \<lparr>entered_name = a, entered_password = b\<rparr>"
  by (cases fr) simp

lemma authenticate_admin_with_phases:
  "authenticate_admin_with chk db fr w =
     (case read_credentials fr w of
        (fr4, w4) \<Rightarrow>
          and_then
            (verify_user_password_with chk db
               (Some (entered_name fr4)) (Some (entered_password fr4)) w4)
            (\<lambda>(ok, w5). report ok fr4 w5))"
proof -
  obtain nm w2 where nm:
    "fgets (secure_zeroize (entered_name fr) MAX_USERNAME_LENGTH) MAX_USERNAME_LENGTH
       (w\<lparr>stdout := stdout w @ ''Enter username:\<newline>''\<rparr>) = (nm, w2)"
    by fastforce
  obtain pw w4 where pw:
    "fgets (secure_zeroize (entered_password fr) MAX_PASSWORD_LENGTH) MAX_PASSWORD_LENGTH
       (w2\<lparr>stdout := stdout w2 @ ''Enter password:\<newline>''\<rparr>) = (pw, w4)"
    by fastforce
  show ?thesis
    by (simp add: authenticate_admin_with_def read_credentials_def report_def Let_def
        verify_user_password_with_Some printf_plain NUL_def nm pw auth_frame_overwrite)
qed

lemma cstr_secure_zeroize_pos: "0 < n \<Longrightarrow> cstr (secure_zeroize s n) = []"
  by (cases n) simp_all

lemma fgets_world:
  "fgets s n w = (s', w') \<Longrightarrow>
   stdout w' = stdout w \<and> stderr w' = stderr w \<and> commands w' = commands w"
  by (auto simp: fgets_def split: prod.splits if_splits)

lemma fgets_cstr_prefix:
  assumes "fgets s n w = (s', w')" and "cstr s = []"
  shows "prefix (cstr s') (stdin w)"
proof -
  obtain r rest where r: "fgets_chars (n - 1) (stdin w) = (r, rest)"
    by fastforce
  show ?thesis
  proof (cases "r = []")
    case True
    with assms r show ?thesis by (simp add: fgets_def)
  next
    case False
    with assms r have "cstr s' = cstr r"
      by (auto simp: fgets_def cstr_append_NUL)
    moreover have "prefix (cstr r) r"
      by (rule cstr_prefix)
    moreover have "prefix r (stdin w)"
      using fgets_chars_append [OF r] by simp
    ultimately show ?thesis
      by (metis prefix_order.order_trans)
  qed
qed

lemma read_credentials_name_prefix:
  assumes "read_credentials fr w = (f, w4)"
  shows "prefix (cstr (entered_name f)) (stdin w)"
proof -
  obtain nm w2 where nm:
    "fgets (secure_zeroize (entered_name fr) MAX_USERNAME_LENGTH) MAX_USERNAME_LENGTH
       (w\<lparr>stdout := stdout w @ ''Enter username:\<newline>''\<rparr>) = (nm, w2)"
    by fastforce
  from assms nm have "entered_name f = nm"
    by (auto simp: read_credentials_def split: prod.splits)
  moreover have "prefix (cstr nm) (stdin (w\<lparr>stdout := stdout w @ ''Enter username:\<newline>''\<rparr>))"
    by (rule fgets_cstr_prefix [OF nm])
       (simp add: cstr_secure_zeroize_pos MAX_USERNAME_LENGTH_def)
  ultimately show ?thesis by simp
qed

lemma read_credentials_world:
  assumes "read_credentials fr w = (f, w4)"
  shows "stderr w4 = stderr w" and "commands w4 = commands w"
    and "stdout w4 = stdout w @ ''Enter username:\<newline>Enter password:\<newline>''"
  using assms
  by (auto simp: read_credentials_def split: prod.splits dest!: fgets_world)

lemma fgets_line:
  assumes "stdin w = u @ newline # rest" and "newline \<notin> set u" and "Suc (length u) < n"
  shows "fgets s n w = (u @ newline # NUL # drop (length u + 2) s, w\<lparr>stdin := rest\<rparr>)"
proof -
  from assms have "fgets_chars (n - 1) (stdin w) = (u @ [newline], rest)"
    by (simp add: fgets_chars_line)
  then show ?thesis by (simp add: fgets_def)
qed

lemma fgets_long:
  assumes "stdin w = u @ rest" and "newline \<notin> set u" and "0 < n - 1" and "n - 1 \<le> length u"
  shows "fgets s n w = (take (n - 1) u @ NUL # drop n s, w\<lparr>stdin := drop (n - 1) u @ rest\<rparr>)"
proof -
  from assms have "newline \<notin> set (take (n - 1) u)"
    by (meson in_set_takeD)
  with assms have "fgets_chars (n - 1) (stdin w) = (take (n - 1) u, drop (n - 1) u @ rest)"
    by (simp add: fgets_chars_long)
  with assms show ?thesis by (auto simp: fgets_def)
qed

lemma strcspn_line:
  "newline \<notin> set p \<Longrightarrow> NUL \<notin> set p \<Longrightarrow> strcspn (p @ newline # s) ''\<newline>'' = length p"
  by (induction p) (auto simp: strcspn_def cstr_Cons newline_def NUL_def)

lemma strcspn_no_newline:
  "newline \<notin> set p \<Longrightarrow> NUL \<notin> set p \<Longrightarrow> strcspn (p @ NUL # s) ''\<newline>'' = length p"
  by (induction p) (auto simp: strcspn_def cstr_Cons newline_def NUL_def)

lemma read_credentials_lines:
  assumes "stdin w = u @ newline # p @ newline # rest"
    and "newline \<notin> set u" and "length u < 31"
    and "newline \<notin> set p" and "NUL \<notin> set p" and "length p < 31"
  shows "read_credentials fr w =
    (\<lparr>entered_name =
        u @ newline # NUL # drop (length u + 2) (secure_zeroize (entered_name fr) 32),
      entered_password =
        p @ NUL # NUL # drop (length p + 2) (secure_zeroize (entered_password fr) 32)\<rparr>,
     w\<lparr>stdout := stdout w @ ''Enter username:\<newline>Enter password:\<newline>'', stdin := rest\<rparr>)"
proof -
  have upd: "(p @ newline # s)[length p := NUL] = p @ NUL # s" for s
    by (simp add: list_update_append)
  show ?thesis
    using assms
    by (simp add: read_credentials_def MAX_USERNAME_LENGTH_def MAX_PASSWORD_LENGTH_def
        fgets_line [of _ u "p @ newline # rest"] fgets_line [of _ p rest] strcspn_line upd)
qed

lemma report_False:
  "report False fr w =
     Inr (False, fr,
          w\<lparr>stdout := stdout w @ ''Password mismatch for the user: '' @
                           cstr (entered_name fr) @ ''\<newline>''\<rparr>)"
  by (simp add: report_def printf_mismatch)

lemma report_True_plain:
  "CHR ''%'' \<notin> set (cstr (entered_name fr)) \<Longrightarrow>
   report True fr w =
     Inr (True, fr,
          w\<lparr>stdout := stdout w @ rule_line @
             ''Password matched, Authenticated succesfully for the user:'' @
             cstr (entered_name fr) @ rule_line\<rparr>)"
  by (simp add: report_def printf_plain rule_line_def NUL_def)
     (simp add: printf_def format_output_plain)

lemma printf_world:
  "printf fmt args w = Inr w' \<Longrightarrow>
   stdin w' = stdin w \<and> stderr w' = stderr w \<and> commands w' = commands w"
  by (auto simp: printf_def split: sum.splits)

lemma report_result:
  assumes "report ok fr w = Inr (b, f, w')"
  shows "b = ok" and "f = fr" and "commands w' = commands w" and "stderr w' = stderr w"
  using assms
  by (auto simp: report_def and_then_def split: if_splits sum.splits dest!: printf_world)

lemma database_names:
  "e \<in> set database \<Longrightarrow> cstr (username e) = username e"
  by (auto simp: database_def cstr_def NUL_def)

lemma scan_database_program:
  "scan_database bcrypt_checkpw database u p \<longleftrightarrow>
     (\<exists>e\<in>set database. prefix (username e) (cstr u))"
  by (simp add: scan_database_stub database_names)

lemma denied_form:
  assumes run: "authenticate_admin_with chk db fr w = Inr (False, f, w')"
    and rd: "read_credentials fr w = (fr4, w4)"
  shows "Inr (False, f, w') =
     report False fr4
       (if strlen (entered_name fr4) = 0 \<or> MAX_USERNAME_LENGTH \<le> strlen (entered_name fr4) \<or>
           strlen (entered_password fr4) = 0 \<or>
           MAX_PASSWORD_LENGTH \<le> strlen (entered_password fr4)
        then w4\<lparr>stderr := stderr w4 @ invalid_length_message\<rparr> else w4)"
proof (cases "strlen (entered_name fr4) = 0 \<or> MAX_USERNAME_LENGTH \<le> strlen (entered_name fr4) \<or>
           strlen (entered_password fr4) = 0 \<or>
           MAX_PASSWORD_LENGTH \<le> strlen (entered_password fr4)")
  case True
  with run rd show ?thesis
    by (simp add: authenticate_admin_with_phases verify_user_password_with_Some)
next
  case False
  with run rd have r: "report (scan_database chk db (entered_name fr4) (entered_password fr4))
      fr4 w4 = Inr (False, f, w')"
    by (simp add: authenticate_admin_with_phases verify_user_password_with_Some)
  from report_result(1) [OF r] have "\<not> scan_database chk db (entered_name fr4) (entered_password fr4)"
    by simp
  with r False show ?thesis by simp
qed

lemma main_with_denied:
  assumes "authenticate_admin_with chk db fr w = Inr (False, f, w')"
  shows "main_with chk db fr w =
     Inr (0, w'\<lparr>stdout := stdout w' @ ''Authentication failed!\<newline>''\<rparr>)"
  using assms by (simp add: main_with_def printf_plain NUL_def)

lemma main_with_granted:
  assumes "authenticate_admin_with chk db fr w = Inr (True, f, w')"
  shows "main_with chk db fr w =
     Inr (0, w'\<lparr>stdout := stdout w' @ ''<<< Welcome to admin panel >>>\<newline>'',
                commands := commands w' @ [''/bin/sh'']\<rparr>)"
  using assms by (simp add: main_with_def admin_panel_def system_def printf_plain NUL_def)

lemma authenticate_admin_with_frame:
  assumes "authenticate_admin_with chk db fr w = Inr (ok, f, w')"
  shows "f = fst (read_credentials fr w)"
proof -
  obtain fr4 w4 where rd: "read_credentials fr w = (fr4, w4)"
    by fastforce
  with assms obtain b w5 where "report b fr4 w5 = Inr (ok, f, w')"
    by (auto simp: authenticate_admin_with_phases verify_user_password_with_Some
        split: if_splits)
  from report_result(2) [OF this] rd show ?thesis by simp
qed

lemma newline_not_NUL [simp]: "newline \<noteq> NUL" "NUL \<noteq> newline"
  by (simp_all add: newline_def NUL_def)

lemma cstr_line_buffer:
  "NUL \<notin> set u \<Longrightarrow> cstr (u @ newline # NUL # s) = u @ [newline]"
  using cstr_append_NUL [of "u @ [newline]" s] by (simp add: cstr_no_NUL)

lemma cstr_text_buffer:
  "NUL \<notin> set p \<Longrightarrow> cstr (p @ NUL # s) = p"
  by (simp add: cstr_append_NUL cstr_no_NUL)

lemma authenticate_admin_granted_lines:
  assumes inp: "stdin w = u @ newline # p @ newline # rest"
    and u: "newline \<notin> set u" "NUL \<notin> set u" "length u < 31" "CHR ''%'' \<notin> set u"
    and p: "newline \<notin> set p" "NUL \<notin> set p" "length p < 31" "p \<noteq> []"
    and hit: "\<exists>e\<in>set database. prefix (username e) u"
  shows "\<exists>f w'. authenticate_admin fr w = Inr (True, f, w') \<and> commands w' = commands w"
proof -
  obtain fr4 w4 where rd: "read_credentials fr w = (fr4, w4)"
    by fastforce
  with read_credentials_lines [OF inp u(1,3) p(1-3), of fr]
  have nm: "cstr (entered_name fr4) = u @ [newline]"
    and pw: "cstr (entered_password fr4) = p"
    using u(2) p(2) by (auto simp: cstr_line_buffer cstr_text_buffer)
  have w4: "commands w4 = commands w"
    by (rule read_credentials_world(2) [OF rd])
  from hit have "scan_database bcrypt_checkpw database (entered_name fr4) (entered_password fr4)"
    unfolding scan_database_program nm by auto
  with rd nm pw u(3) p(3,4) have "authenticate_admin fr w = report True fr4 w4"
    by (simp add: authenticate_admin_def authenticate_admin_with_phases
        verify_user_password_with_Some strlen_def MAX_USERNAME_LENGTH_def
        MAX_PASSWORD_LENGTH_def)
  moreover have "CHR ''%'' \<notin> set (cstr (entered_name fr4))"
    using u(4) by (simp add: nm newline_def)
  ultimately show ?thesis
    using w4 by (simp add: report_True_plain)
qed

lemma password_read_cstr:
  assumes "stdin w = d @ newline # rest" and "newline \<notin> set d" and "NUL \<notin> set d"
    and "fgets z 32 w = (pw, w')"
  shows "cstr (pw[strcspn pw ''\<newline>'' := NUL]) = take 31 d"
proof (cases "length d < 31")
  case True
  with assms have "pw = d @ newline # NUL # drop (length d + 2) z"
    by (simp add: fgets_line [of w d rest])
  with assms True show ?thesis
    by (simp add: strcspn_line list_update_append cstr_text_buffer)
next
  case False
  with assms have pw: "pw = take 31 d @ NUL # drop 32 z"
    by (simp add: fgets_long [of w d "newline # rest"])
  from assms have "newline \<notin> set (take 31 d)" "NUL \<notin> set (take 31 d)"
    by (meson in_set_takeD)+
  moreover from False have "length (take 31 d) = 31" by simp
  ultimately show ?thesis
    unfolding pw
    by (metis cstr_text_buffer list_update_length strcspn_no_newline)
qed

lemma fgets_chars_length: "fgets_chars k inp = (r, rest) \<Longrightarrow> length r \<le> k"
  by (induction k inp arbitrary: r rest rule: fgets_chars.induct)
     (auto split: if_splits prod.splits)

lemma strlen_less_length: "NUL \<in> set s \<Longrightarrow> strlen s < length s"
  by (induction s) (auto simp: strlen_def cstr_Cons)

lemma strcspn_le_strlen: "strcspn s reject \<le> strlen s"
  by (simp add: strcspn_def strlen_def length_takeWhile_le)

lemma fgets_in_bounds:
  assumes "fgets s n w = (s', w')" and "length s = n" and "NUL \<in> set s"
  shows "length s' = n \<and> NUL \<in> set s'"
proof -
  obtain r rest where r: "fgets_chars (n - 1) (stdin w) = (r, rest)"
    by fastforce
  show ?thesis
  proof (cases "r = []")
    case True
    with assms r show ?thesis by (simp add: fgets_def)
  next
    case False
    from fgets_chars_length [OF r] assms(2,3) have "Suc (length r) \<le> length s"
      by (cases s) auto
    with assms r False show ?thesis
      by (auto simp: fgets_def)
  qed
qed

lemma strcspn_index_in_bounds:
  assumes "fgets s n w = (pw, w')" and "length s = n" and "NUL \<in> set s"
  shows "strcspn pw reject < length pw"
  using fgets_in_bounds [OF assms] strcspn_le_strlen [of pw reject] strlen_less_length [of pw]
  by simp

lemma read_credentials_in_bounds:
  assumes "frame_ok fr" and "read_credentials fr w = (f, w4)"
  shows "frame_ok f"
    and "strlen (entered_name f) < MAX_USERNAME_LENGTH"
    and "strlen (entered_password f) < MAX_PASSWORD_LENGTH"
proof -
  let ?zn = "secure_zeroize (entered_name fr) MAX_USERNAME_LENGTH"
  let ?zp = "secure_zeroize (entered_password fr) MAX_PASSWORD_LENGTH"
  obtain nm w2 where nm:
    "fgets ?zn MAX_USERNAME_LENGTH (w\<lparr>stdout := stdout w @ ''Enter username:\<newline>''\<rparr>) = (nm, w2)"
    by fastforce
  obtain pw w4' where pw:
    "fgets ?zp MAX_PASSWORD_LENGTH (w2\<lparr>stdout := stdout w2 @ ''Enter password:\<newline>''\<rparr>) = (pw, w4')"
    by fastforce
  from assms(1) have z: "NUL \<in> set ?zn" "NUL \<in> set ?zp"
    by (simp_all add: frame_ok_def secure_zeroize_whole MAX_USERNAME_LENGTH_def
        MAX_PASSWORD_LENGTH_def)
  from assms(1) have "length ?zn = MAX_USERNAME_LENGTH" "length ?zp = MAX_PASSWORD_LENGTH"
    by (simp_all add: frame_ok_def)
  with z nm pw have n: "length nm = MAX_USERNAME_LENGTH" "NUL \<in> set nm"
    and p: "length pw = MAX_PASSWORD_LENGTH" "NUL \<in> set pw"
    by (auto dest: fgets_in_bounds)
  from assms(2) nm pw have f: "f = \<lparr>entered_name = nm,
      entered_password = pw[strcspn pw ''\<newline>'' := NUL]\<rparr>"
    by (simp add: read_credentials_def)
  have idx: "strcspn pw ''\<newline>'' < length pw"
    using strcspn_le_strlen [of pw "''\<newline>''"] strlen_less_length [OF p(2)] by simp
  then have p': "NUL \<in> set (pw[strcspn pw ''\<newline>'' := NUL])"
    by (simp add: set_update_memI)
  show "frame_ok f"
    using n p by (simp add: f frame_ok_def)
  show "strlen (entered_name f) < MAX_USERNAME_LENGTH"
    using strlen_less_length [OF n(2)] n(1) by (simp add: f)
  show "strlen (entered_password f) < MAX_PASSWORD_LENGTH"
    using strlen_less_length [OF p'] p(1) by (simp add: f)
qed

lemma strcspn_Nil [simp]: "strcspn [] reject = 0"
  by (simp add: strcspn_def)

lemma strcspn_newline_Cons:
  "strcspn (c # s) ''\<newline>'' =
     (if c = NUL \<or> c = newline then 0 else Suc (strcspn s ''\<newline>''))"
  by (simp add: strcspn_def cstr_Cons newline_def NUL_def)

lemma fgets_zeroed:
  assumes "fgets_chars (n - 1) (stdin w) = (r, rest)" and "0 < n"
  shows "fgets (replicate n NUL) n w = (r @ replicate (n - length r) NUL, w\<lparr>stdin := rest\<rparr>)"
proof (cases "r = []")
  case True
  with fgets_chars_append [OF assms(1)] have "rest = stdin w" by simp
  with assms True show ?thesis by (simp add: fgets_def)
next
  case False
  from fgets_chars_length [OF assms(1)] assms(2) have "Suc (length r) \<le> n" by simp
  then have "NUL # replicate (n - Suc (length r)) NUL = replicate (n - length r) NUL"
    by (metis Suc_diff_Suc Suc_le_lessD replicate_Suc)
  with assms False show ?thesis by (simp add: fgets_def)
qed

lemma strip_keeps_text:
  "prefix (takeWhile (\<lambda>c. c \<noteq> newline) q)
     ((q @ zs)[strcspn (q @ zs) ''\<newline>'' := NUL])"
proof (induction q)
  case Nil
  show ?case by simp
next
  case (Cons c q)
  show ?case
  proof (cases "c = NUL \<or> c = newline")
    case True
    then show ?thesis
      by (auto simp: strcspn_newline_Cons intro: prefix_order.order_trans [OF takeWhile_is_prefix])
  next
    case False
    with Cons show ?thesis
      by (simp add: strcspn_newline_Cons)
  qed
qed

lemma strip_keeps_zeros:
  "drop (length q) ((q @ replicate k NUL)[strcspn (q @ replicate k NUL) ''\<newline>'' := NUL]) =
     replicate k NUL"
proof (induction q)
  case Nil
  show ?case by (cases k) (simp_all add: strcspn_newline_Cons)
next
  case (Cons c q)
  then show ?case
    by (simp add: strcspn_newline_Cons)
qed

lemma read_credentials_zeroed:
  assumes ok: "frame_ok fr"
    and r: "fgets_chars (MAX_USERNAME_LENGTH - 1) (stdin w) = (r, rest)"
    and q: "fgets_chars (MAX_PASSWORD_LENGTH - 1) rest = (q, rest')"
  shows "fst (read_credentials fr w) =
     \<lparr>entered_name = r @ replicate (MAX_USERNAME_LENGTH - length r) NUL,
      entered_password =
        (q @ replicate (MAX_PASSWORD_LENGTH - length q) NUL)
          [strcspn (q @ replicate (MAX_PASSWORD_LENGTH - length q) NUL) ''\<newline>'' := NUL]\<rparr>"
proof -
  let ?w1 = "w\<lparr>stdout := stdout w @ ''Enter username:\<newline>''\<rparr>"
  let ?w3 = "?w1\<lparr>stdin := rest, stdout := stdout w @ ''Enter username:\<newline>Enter password:\<newline>''\<rparr>"
  from ok have z: "secure_zeroize (entered_name fr) MAX_USERNAME_LENGTH =
      replicate MAX_USERNAME_LENGTH NUL"
    "secure_zeroize (entered_password fr) MAX_PASSWORD_LENGTH =
      replicate MAX_PASSWORD_LENGTH NUL"
    by (simp_all add: frame_ok_def secure_zeroize_whole)
  have nm: "fgets (replicate MAX_USERNAME_LENGTH NUL) MAX_USERNAME_LENGTH ?w1 =
      (r @ replicate (MAX_USERNAME_LENGTH - length r) NUL, ?w1\<lparr>stdin := rest\<rparr>)"
    using fgets_zeroed [of MAX_USERNAME_LENGTH ?w1 r rest] r
    by (simp add: MAX_USERNAME_LENGTH_def)
  have pw: "fgets (replicate MAX_PASSWORD_LENGTH NUL) MAX_PASSWORD_LENGTH ?w3 =
      (q @ replicate (MAX_PASSWORD_LENGTH - length q) NUL, ?w3\<lparr>stdin := rest'\<rparr>)"
    using fgets_zeroed [of MAX_PASSWORD_LENGTH ?w3 q rest'] q
    by (simp add: MAX_PASSWORD_LENGTH_def)
  show ?thesis
    using nm pw by (simp add: read_credentials_def z)
qed

section \<open>The claims\<close>

subsection \<open>C1: the success message and the entered name\<close>

text \<open>
  Claim C1 says that the success message prints the accepted username as data, so that
  formatting directives in it come out literally. The program does not do that: line 92 is
  \<open>printf(entered_name)\<close>, the name is the format. With the name \<open>admin%s%s%s%s\<close> every
  \<open>%s\<close> reads an argument that was never passed, and the run ends in a fault instead of a
  message; with \<open>admin%%\<close> the message shows \<open>admin%\<close>, one percent sign instead of the two
  that were entered. The failure message of line 96 passes the name as an argument of
  \<open>%s\<close>.
\<close>

theorem username_is_used_as_format_string:
  "main stale_frame (console ''admin%s%s%s%s\<newline>aaaaaaaa\<newline>'') = Inl MissingArgument \<and>
   main stale_frame (console ''admin%%\<newline>aaaaaaaa\<newline>'') =
     Inr (0, \<lparr>stdin = [],
              stdout = ''Enter username:\<newline>Enter password:\<newline>'' @ rule_line @
                ''Password matched, Authenticated succesfully for the user:'' @
                ''admin%\<newline>'' @ rule_line @ ''<<< Welcome to admin panel >>>\<newline>'',
              stderr = [], commands = [''/bin/sh'']\<rparr>)"
  by code_simp

subsection \<open>C2: when an attempt is denied\<close>

text \<open>
  Claim C2 says that a wrong password for a stored username is denied. It is not:
  \<open>bcrypt_checkpw\<close> returns 0 for every password, so \<open>admin\<close> with the password \<open>wrong\<close>
  is granted and the shell is started.
\<close>

theorem wrong_password_is_granted:
  "main stale_frame (console ''admin\<newline>wrong\<newline>'') =
     Inr (0, \<lparr>stdin = [],
              stdout = ''Enter username:\<newline>Enter password:\<newline>'' @ rule_line @
                ''Password matched, Authenticated succesfully for the user:'' @
                ''admin\<newline>'' @ rule_line @ ''<<< Welcome to admin panel >>>\<newline>'',
              stderr = [], commands = [''/bin/sh'']\<rparr>)"
  by code_simp

text \<open>
  Claim C2 as the program has it: when no stored username is a prefix of the bytes on
  standard input, which begin with the entered username, the attempt is denied,
  \<open>authenticate_admin\<close> returns false, \<open>main\<close> returns 0 and no command is run. The
  password plays no part in this.
\<close>

theorem denied_without_stored_prefix:
  assumes "\<forall>e\<in>set database. \<not> prefix (username e) (stdin w)"
  shows "\<exists>f w' w''. authenticate_admin fr w = Inr (False, f, w') \<and>
           main fr w = Inr (0, w'') \<and> commands w'' = commands w"
proof -
  obtain fr4 w4 where rd: "read_credentials fr w = (fr4, w4)"
    by fastforce
  have "prefix (cstr (entered_name fr4)) (stdin w)"
    by (rule read_credentials_name_prefix [OF rd])
  with assms have miss: "\<not> scan_database bcrypt_checkpw database (entered_name fr4) p" for p
    unfolding scan_database_program by (meson prefix_order.order_trans)
  define w5 where "w5 =
     (if strlen (entered_name fr4) = 0 \<or> MAX_USERNAME_LENGTH \<le> strlen (entered_name fr4) \<or>
         strlen (entered_password fr4) = 0 \<or>
         MAX_PASSWORD_LENGTH \<le> strlen (entered_password fr4)
      then w4\<lparr>stderr := stderr w4 @ invalid_length_message\<rparr> else w4)"
  have w5: "authenticate_admin fr w = report False fr4 w5" "commands w5 = commands w4"
    using rd miss
    by (simp_all add: w5_def authenticate_admin_def authenticate_admin_with_phases
        verify_user_password_with_Some)
  then have run: "authenticate_admin_with bcrypt_checkpw database fr w =
      Inr (False, fr4, w5\<lparr>stdout := stdout w5 @ ''Password mismatch for the user: '' @
                           cstr (entered_name fr4) @ ''\<newline>''\<rparr>)"
    by (simp add: report_False authenticate_admin_def)
  from main_with_denied [OF run] run w5(2) read_credentials_world(2) [OF rd]
  show ?thesis
    by (simp add: main_def authenticate_admin_def)
qed

text \<open>The username \<open>nouser\<close> is denied.\<close>

theorem denied_without_stored_prefix_witness:
  "\<exists>f w' w''. authenticate_admin stale_frame (console ''nouser\<newline>x\<newline>'') = Inr (False, f, w') \<and>
     main stale_frame (console ''nouser\<newline>x\<newline>'') = Inr (0, w'') \<and>
     commands w'' = commands (console ''nouser\<newline>x\<newline>'')"
  using denied_without_stored_prefix [of "console ''nouser\<newline>x\<newline>''" stale_frame]
  by (simp add: console_def database_def)

subsection \<open>C3: the password does not influence the decision\<close>

text \<open>
  Claim C3: for a username of valid length and two passwords of valid length,
  \<open>verify_user_password\<close> returns the same result and leaves the same output, whatever the
  passwords contain.
\<close>

theorem password_content_is_ignored:
  assumes "0 < strlen u" and "strlen u < MAX_USERNAME_LENGTH"
    and "0 < strlen p1" and "strlen p1 < MAX_PASSWORD_LENGTH"
    and "0 < strlen p2" and "strlen p2 < MAX_PASSWORD_LENGTH"
  shows "verify_user_password (Some u) (Some p1) w = verify_user_password (Some u) (Some p2) w"
  using assms
  by (simp add: verify_user_password_def verify_user_password_with_Some
      scan_database_stub_password [of _ _ p1 p2])

text \<open>The stored password of \<open>admin\<close> and the password \<open>wrong\<close> give the same result.\<close>

theorem password_content_is_ignored_witness:
  "verify_user_password (Some ''admin'') (Some ''aaaaaaaa'') (console []) =
   verify_user_password (Some ''admin'') (Some ''wrong'') (console [])"
  using password_content_is_ignored [of "''admin''" "''aaaaaaaa''" "''wrong''" "console []"]
  by (simp add: strlen_def cstr_def NUL_def MAX_USERNAME_LENGTH_def MAX_PASSWORD_LENGTH_def)

subsection \<open>C4: which usernames the lookup accepts\<close>

text \<open>
  Claim C4 says that the lookup succeeds only for a candidate equal to a stored username
  over its full length. The loop compares with \<open>strncmp\<close> over the length of the stored
  name only, so the candidate \<open>adminX\<close>, which no entry of the table holds, matches the
  entry \<open>admin\<close> and is verified.
\<close>

theorem lookup_accepts_extended_username:
  "scan_database bcrypt_checkpw database ''adminX'' ''x'' \<and>
   verify_user_password (Some ''adminX'') (Some ''x'') (console []) = Inr (True, console [])"
  by code_simp

subsection \<open>C5: a username line longer than the array\<close>

text \<open>
  Claim C5 says that a username of 32 bytes or more is rejected as too long before any
  lookup. It is not rejected: for the line \<open>admin\<close> followed by 40 letters \<open>a\<close> the program
  looks the first 31 bytes up, finds \<open>admin\<close>, and starts the shell.
\<close>

theorem overlong_username_is_granted:
  "main stale_frame (console ''adminaaaaaaaaaaaaaaaaaaaaaaaaaaaaaaaaaaaaaaaa\<newline>'') =
     Inr (0, \<lparr>stdin = [],
              stdout = ''Enter username:\<newline>Enter password:\<newline>'' @ rule_line @
                ''Password matched, Authenticated succesfully for the user:'' @
                ''adminaaaaaaaaaaaaaaaaaaaaaaaaaa'' @ rule_line @
                ''<<< Welcome to admin panel >>>\<newline>'',
              stderr = [], commands = [''/bin/sh'']\<rparr>)"
  by code_simp

text \<open>
  Claim C5 as the program has it: a username line of \<open>MAX_USERNAME_LENGTH\<close> bytes or more
  is not rejected. \<open>fgets\<close> keeps the first \<open>MAX_USERNAME_LENGTH - 1\<close> bytes as the username
  and leaves the rest of the line on standard input, where the password read takes up to
  \<open>MAX_PASSWORD_LENGTH - 1\<close> bytes of it. No error is written, both lengths pass the
  validation, and the attempt returns what the lookup in the table returns for the
  shortened name. (The line ends with a newline and is free of NUL and percent bytes, so
  that the name is the line's bytes and the success message is defined.)
\<close>

theorem overlong_username_is_truncated:
  assumes inp: "stdin w = u @ newline # rest"
    and u: "newline \<notin> set u" "NUL \<notin> set u" "CHR ''%'' \<notin> set u"
    and long: "MAX_USERNAME_LENGTH \<le> length u"
  shows "\<exists>f w'. authenticate_admin fr w =
             Inr (scan_database bcrypt_checkpw database (entered_name f) (entered_password f),
                  f, w') \<and>
           cstr (entered_name f) = take (MAX_USERNAME_LENGTH - 1) u \<and>
           cstr (entered_password f) =
             take (MAX_PASSWORD_LENGTH - 1) (drop (MAX_USERNAME_LENGTH - 1) u) \<and>
           stderr w' = stderr w"
proof -
  let ?w1 = "w\<lparr>stdout := stdout w @ ''Enter username:\<newline>''\<rparr>"
  let ?z = "secure_zeroize (entered_name fr) 32"
  let ?d = "drop 31 u"
  from long have len: "32 \<le> length u"
    by (simp add: MAX_USERNAME_LENGTH_def)
  have nm: "fgets ?z 32 ?w1 = (take 31 u @ NUL # drop 32 ?z, ?w1\<lparr>stdin := ?d @ newline # rest\<rparr>)"
    using fgets_long [of ?w1 u "newline # rest" 32 ?z] inp u(1) len by simp
  obtain fr4 w4 where rd: "read_credentials fr w = (fr4, w4)"
    by fastforce
  let ?w3 = "?w1\<lparr>stdin := ?d @ newline # rest,
      stdout := stdout w @ ''Enter username:\<newline>Enter password:\<newline>''\<rparr>"
  obtain pw w4' where pw: "fgets (secure_zeroize (entered_password fr) 32) 32 ?w3 = (pw, w4')"
    by fastforce
  from u have d: "newline \<notin> set ?d" "NUL \<notin> set ?d"
    by (meson in_set_dropD)+
  have "cstr (pw[strcspn pw ''\<newline>'' := NUL]) = take 31 ?d"
    by (rule password_read_cstr [OF _ d pw]) simp
  moreover from u have tk: "NUL \<notin> set (take 31 u)" "CHR ''%'' \<notin> set (take 31 u)"
    by (meson in_set_takeD)+
  ultimately have name: "cstr (entered_name fr4) = take 31 u"
    and pass: "cstr (entered_password fr4) = take 31 ?d"
    using rd nm pw
    by (auto simp: read_credentials_def MAX_USERNAME_LENGTH_def MAX_PASSWORD_LENGTH_def
        cstr_text_buffer)
  let ?ok = "scan_database bcrypt_checkpw database (entered_name fr4) (entered_password fr4)"
  from len have "u \<noteq> []" by auto
  with rd name pass len have run: "authenticate_admin fr w = report ?ok fr4 w4"
    by (simp add: authenticate_admin_def authenticate_admin_with_phases
        verify_user_password_with_Some strlen_def
        MAX_USERNAME_LENGTH_def MAX_PASSWORD_LENGTH_def)
  have w4: "stderr w4 = stderr w"
    by (rule read_credentials_world(1) [OF rd])
  have "\<exists>w'. report ?ok fr4 w4 = Inr (?ok, fr4, w') \<and> stderr w' = stderr w"
  proof (cases ?ok)
    case True
    with tk(2) w4 show ?thesis
      by (simp add: report_True_plain name)
  next
    case False
    with w4 show ?thesis
      by (simp add: report_False)
  qed
  with run name pass show ?thesis
    by (auto simp: MAX_USERNAME_LENGTH_def MAX_PASSWORD_LENGTH_def)
qed

text \<open>The line \<open>nobody\<close> followed by 30 letters \<open>x\<close>.\<close>

theorem overlong_username_is_truncated_witness:
  "\<exists>f w'. authenticate_admin stale_frame
            (console ''nobodyxxxxxxxxxxxxxxxxxxxxxxxxxxxxxx\<newline>'') =
             Inr (scan_database bcrypt_checkpw database (entered_name f) (entered_password f),
                  f, w') \<and>
           cstr (entered_name f) = ''nobodyxxxxxxxxxxxxxxxxxxxxxxxxx'' \<and>
           cstr (entered_password f) = ''xxxxx'' \<and>
           stderr w' = stderr (console ''nobodyxxxxxxxxxxxxxxxxxxxxxxxxxxxxxx\<newline>'')"
  using overlong_username_is_truncated [of "console ''nobodyxxxxxxxxxxxxxxxxxxxxxxxxxxxxxx\<newline>''"
      "''nobodyxxxxxxxxxxxxxxxxxxxxxxxxxxxxxx''" "[]" stale_frame]
  by (simp add: console_def newline_def NUL_def MAX_USERNAME_LENGTH_def
      MAX_PASSWORD_LENGTH_def)

subsection \<open>C6: the arrays when the function returns\<close>

text \<open>
  Claim C6 says that both arrays hold zero bytes only when \<open>authenticate_admin\<close> returns.
  They do not: \<open>secure_zeroize\<close> is called on both arrays at the start of the function and
  nowhere else, so a denied attempt with \<open>nouser\<close> and \<open>secret\<close> returns with both still in
  the arrays.
\<close>

theorem buffers_keep_credentials:
  "authenticate_admin stale_frame (console ''nouser\<newline>secret\<newline>'') =
     Inr (False,
          \<lparr>entered_name = ''nouser\<newline>'' @ replicate 25 NUL,
             entered_password = ''secret'' @ replicate 26 NUL\<rparr>,
          \<lparr>stdin = [],
             stdout = ''Enter username:\<newline>Enter password:\<newline>Password mismatch for the user: nouser\<newline>\<newline>'',
             stderr = [], commands = []\<rparr>)"
  by code_simp

text \<open>
  Claim C6 as the program has it: the only wipe is the one at the start of the attempt, and
  the arrays are returned as the reads left them. Let \<open>r\<close> be the bytes that \<open>fgets\<close> took
  for the username and \<open>q\<close> the bytes it took for the password. When the function returns,
  each array, whatever it held on entry, begins with the bytes taken for it up to the
  first newline, and every byte behind the bytes taken is zero. (On an input at its end
  nothing is taken and both arrays are zero.)
\<close>

theorem buffers_on_return:
  assumes "frame_ok fr" and "authenticate_admin fr w = Inr (ok, f, w')"
  shows "let r = fst (fgets_chars (MAX_USERNAME_LENGTH - 1) (stdin w));
             q = fst (fgets_chars (MAX_PASSWORD_LENGTH - 1)
                        (snd (fgets_chars (MAX_USERNAME_LENGTH - 1) (stdin w))))
         in prefix (takeWhile (\<lambda>c. c \<noteq> newline) r) (entered_name f) \<and>
            drop (length r) (entered_name f) = replicate (MAX_USERNAME_LENGTH - length r) NUL \<and>
            prefix (takeWhile (\<lambda>c. c \<noteq> newline) q) (entered_password f) \<and>
            drop (length q) (entered_password f) =
              replicate (MAX_PASSWORD_LENGTH - length q) NUL"
proof -
  obtain r rest where r: "fgets_chars (MAX_USERNAME_LENGTH - 1) (stdin w) = (r, rest)"
    by fastforce
  obtain q rest' where q: "fgets_chars (MAX_PASSWORD_LENGTH - 1) rest = (q, rest')"
    by fastforce
  have "f = fst (read_credentials fr w)"
    using assms(2) unfolding authenticate_admin_def by (rule authenticate_admin_with_frame)
  then have f: "entered_name f = r @ replicate (MAX_USERNAME_LENGTH - length r) NUL"
    "entered_password f =
        (q @ replicate (MAX_PASSWORD_LENGTH - length q) NUL)
          [strcspn (q @ replicate (MAX_PASSWORD_LENGTH - length q) NUL) ''\<newline>'' := NUL]"
    by (simp_all add: read_credentials_zeroed [OF assms(1) r q])
  have "prefix (takeWhile (\<lambda>c. c \<noteq> newline) r) (entered_name f)"
    unfolding f by (meson prefix_order.order_trans takeWhile_is_prefix prefixI)
  moreover have "drop (length r) (entered_name f) = replicate (MAX_USERNAME_LENGTH - length r) NUL"
    unfolding f by simp
  moreover have "prefix (takeWhile (\<lambda>c. c \<noteq> newline) q) (entered_password f)"
    unfolding f by (rule strip_keeps_text)
  moreover have "drop (length q) (entered_password f) =
      replicate (MAX_PASSWORD_LENGTH - length q) NUL"
    unfolding f by (rule strip_keeps_zeros)
  ultimately show ?thesis
    unfolding Let_def r fst_conv snd_conv q by blast
qed

text \<open>A granted attempt, \<open>admin\<close> with the password \<open>aaaaaaaa\<close>, on a frame of stale bytes.\<close>

theorem buffers_on_return_witness:
  "\<exists>ok f w'. authenticate_admin stale_frame (console ''admin\<newline>aaaaaaaa\<newline>'') = Inr (ok, f, w') \<and>
     prefix ''admin'' (entered_name f) \<and> drop 6 (entered_name f) = replicate 26 NUL \<and>
     prefix ''aaaaaaaa'' (entered_password f) \<and> drop 9 (entered_password f) = replicate 23 NUL"
proof -
  let ?inp = "''admin\<newline>aaaaaaaa\<newline>''"
  let ?f = "\<lparr>entered_name = ''admin\<newline>'' @ replicate 26 NUL,
             entered_password = ''aaaaaaaa'' @ replicate 24 NUL\<rparr>"
  let ?w = "\<lparr>stdin = [],
             stdout = ''Enter username:\<newline>Enter password:\<newline>'' @ rule_line @
                ''Password matched, Authenticated succesfully for the user:'' @
                ''admin\<newline>'' @ rule_line,
             stderr = [], commands = []\<rparr>"
  have run: "authenticate_admin stale_frame (console ?inp) = Inr (True, ?f, ?w)"
    by code_simp
  have ok: "frame_ok stale_frame"
    by (simp add: frame_ok_def stale_frame_def MAX_USERNAME_LENGTH_def MAX_PASSWORD_LENGTH_def)
  have r: "fgets_chars (MAX_USERNAME_LENGTH - 1) (stdin (console ?inp)) =
      (''admin\<newline>'', ''aaaaaaaa\<newline>'')"
    by code_simp
  have q: "fgets_chars (MAX_PASSWORD_LENGTH - 1) ''aaaaaaaa\<newline>'' = (''aaaaaaaa\<newline>'', [])"
    by code_simp
  have "prefix ''admin'' (entered_name ?f) \<and> drop 6 (entered_name ?f) = replicate 26 NUL \<and>
     prefix ''aaaaaaaa'' (entered_password ?f) \<and> drop 9 (entered_password ?f) = replicate 23 NUL"
    using buffers_on_return [OF ok run] unfolding Let_def r fst_conv snd_conv q
    by (simp add: newline_def MAX_USERNAME_LENGTH_def MAX_PASSWORD_LENGTH_def)
  with run show ?thesis
    by blast
qed

subsection \<open>C7: the length check\<close>

text \<open>
  Claim C7 says that a credential of length \<open>max - 1 = 31\<close> is rejected as invalid. The
  check of the program is \<open>length >= MAX_USERNAME_LENGTH\<close>, so a username of 31 bytes
  passes it and is looked up.
\<close>

theorem length_31_is_accepted:
  "verify_user_password (Some ''adminaaaaaaaaaaaaaaaaaaaaaaaaaa'') (Some ''x'') (console []) =
     Inr (True, console [])"
  by code_simp

text \<open>
  Claim C7 as the program has it: \<open>verify_user_password\<close> rejects with the
  invalid-length message, before the table is scanned, exactly when the length of the
  username or of the password is 0 or at least the maximum, 32.
\<close>

theorem invalid_length_iff:
  "verify_user_password (Some u) (Some p) w =
     Inr (False, w\<lparr>stderr := stderr w @ ''Error: Username or password is invalid length.\<newline>''\<rparr>)
   \<longleftrightarrow>
     strlen u = 0 \<or> MAX_USERNAME_LENGTH \<le> strlen u \<or>
     strlen p = 0 \<or> MAX_PASSWORD_LENGTH \<le> strlen p"
proof -
  have "w\<lparr>stderr := stderr w @ invalid_length_message\<rparr> \<noteq> w"
  proof
    assume "w\<lparr>stderr := stderr w @ invalid_length_message\<rparr> = w"
    then have "stderr (w\<lparr>stderr := stderr w @ invalid_length_message\<rparr>) = stderr w"
      by simp
    then show False
      by (simp add: invalid_length_message_def)
  qed
  then show ?thesis
    by (auto simp: verify_user_password_def verify_user_password_with_Some
        invalid_length_message_def)
qed

text \<open>The empty username is rejected.\<close>

theorem invalid_length_iff_witness:
  "verify_user_password (Some []) (Some ''x'') (console []) =
     Inr (False, (console [])\<lparr>stderr := stderr (console []) @ ''Error: Username or password is invalid length.\<newline>''\<rparr>)"
  using invalid_length_iff [of "[]" "''x''" "console []"]
  by (simp add: strlen_def)

subsection \<open>C8: the newline of the entered lines\<close>

text \<open>
  Claim C8 says that the newline is taken off both entered lines. Line 87 takes it off the
  password, the same statement for the username is commented out in line 83: for the
  input \<open>greg\<close>, the username array holds \<open>greg\<close> and a newline when
  \<open>verify_user_password\<close> is called, and the success message prints the name with it.
\<close>

theorem username_keeps_newline:
  "authenticate_admin stale_frame (console ''greg\<newline>hashed_gregPass\<newline>'') =
     Inr (True,
          \<lparr>entered_name = ''greg\<newline>'' @ replicate 27 NUL,
             entered_password = ''hashed_gregPass'' @ replicate 17 NUL\<rparr>,
          \<lparr>stdin = [],
             stdout = ''Enter username:\<newline>Enter password:\<newline>'' @ rule_line @
                ''Password matched, Authenticated succesfully for the user:'' @
                ''greg\<newline>'' @ rule_line,
             stderr = [], commands = []\<rparr>)"
  by code_simp

subsection \<open>C9: what a failed attempt shows\<close>

text \<open>
  Claim C9: the output of a failed attempt does not tell whether the username exists. With
  \<open>bcrypt_checkpw\<close> as it is, a stored username never fails the password check, so the
  statement is made for every password check and every table: two failed attempts on the
  same input end with the same arrays and the same output (and the same input left),
  whichever table was searched and whichever check was used. An attempt that fails because
  the username is absent and one that fails because the password is wrong are therefore
  the same to the observer.
\<close>

theorem failure_output_independent_of_store:
  assumes "authenticate_admin_with chk1 db1 fr w = Inr (False, f1, w1)"
    and "authenticate_admin_with chk2 db2 fr w = Inr (False, f2, w2)"
  shows "f1 = f2 \<and> w1 = w2"
proof -
  obtain fr4 w4 where rd: "read_credentials fr w = (fr4, w4)"
    by fastforce
  from denied_form [OF assms(1) rd] denied_form [OF assms(2) rd]
  have "Inr (False, f1, w1) = (Inr (False, f2, w2) :: fault + (bool \<times> auth_frame \<times> world))"
    by simp
  then show ?thesis by simp
qed

text \<open>
  The input \<open>admin\<close> with the password \<open>wrong\<close>: on the table of the program with a check
  that compares the password with the stored one the name exists and the password is
  wrong, on the empty table the name does not exist.
\<close>

theorem failure_output_independent_of_store_witness:
  "\<exists>f w'.
     authenticate_admin_with exact_checkpw database stale_frame
       (console ''admin\<newline>wrong\<newline>'') = Inr (False, f, w') \<and>
     authenticate_admin_with bcrypt_checkpw [] stale_frame
       (console ''admin\<newline>wrong\<newline>'') = Inr (False, f, w')"
proof -
  let ?known = "authenticate_admin_with exact_checkpw database stale_frame
       (console ''admin\<newline>wrong\<newline>'')"
  let ?unknown = "authenticate_admin_with bcrypt_checkpw [] stale_frame
       (console ''admin\<newline>wrong\<newline>'')"
  have known: "?known = Inr (False, fst (snd (projr ?known)), snd (snd (projr ?known)))"
    by code_simp
  have unknown: "?unknown = Inr (False, fst (snd (projr ?unknown)), snd (snd (projr ?unknown)))"
    by code_simp
  from failure_output_independent_of_store [OF known unknown] known unknown show ?thesis
    by metis
qed

subsection \<open>C10: the stored pair\<close>

text \<open>
  Claim C10: when a stored username and the string stored with it are entered, each on a
  line of its own, \<open>authenticate_admin\<close> returns true and \<open>main\<close> runs \<open>/bin/sh\<close> exactly
  once.
\<close>

theorem stored_pair_is_granted:
  assumes "e \<in> set database"
    and "stdin w = username e @ newline # hashed_password e @ newline # rest"
  shows "\<exists>f w' w''. authenticate_admin fr w = Inr (True, f, w') \<and>
           main fr w = Inr (0, w'') \<and> commands w'' = commands w @ [''/bin/sh'']"
proof -
  from assms(1) have u: "newline \<notin> set (username e)" "NUL \<notin> set (username e)"
      "length (username e) < 31" "CHR ''%'' \<notin> set (username e)"
    by (auto simp: database_def newline_def NUL_def)
  from assms(1) have p: "newline \<notin> set (hashed_password e)" "NUL \<notin> set (hashed_password e)"
      "length (hashed_password e) < 31" "hashed_password e \<noteq> []"
    by (auto simp: database_def newline_def NUL_def)
  from assms(1) have "\<exists>d\<in>set database. prefix (username d) (username e)"
    by auto
  from authenticate_admin_granted_lines [OF assms(2) u p this, of fr]
  obtain f w' where run: "authenticate_admin fr w = Inr (True, f, w')"
    and cmds: "commands w' = commands w"
    by blast
  from run have "main fr w =
      Inr (0, w'\<lparr>stdout := stdout w' @ ''<<< Welcome to admin panel >>>\<newline>'',
                 commands := commands w' @ [''/bin/sh'']\<rparr>)"
    unfolding main_def authenticate_admin_def by (rule main_with_granted)
  with run cmds show ?thesis by simp
qed

text \<open>The entry \<open>admin\<close>.\<close>

theorem stored_pair_is_granted_witness:
  "\<exists>f w' w''. authenticate_admin stale_frame (console ''admin\<newline>aaaaaaaa\<newline>'') = Inr (True, f, w') \<and>
     main stale_frame (console ''admin\<newline>aaaaaaaa\<newline>'') = Inr (0, w'') \<and>
     commands w'' = commands (console ''admin\<newline>aaaaaaaa\<newline>'') @ [''/bin/sh'']"
  using stored_pair_is_granted [of "\<lparr>username = ''admin'', hashed_password = ''aaaaaaaa''\<rparr>"
      "console ''admin\<newline>aaaaaaaa\<newline>''" "[]" stale_frame]
  by (simp add: database_def console_def newline_def)

end
